theory Spec2Isabelle
  imports Main "HOL-Library.Word" "HOL-Library.Signed_Division" "HOL-Library.Multiset"
    "HOL-Library.Sublist"
begin

section \<open>The part of Go's \<^verbatim>\<open>time\<close> package that the appender calls\<close>

text \<open>
  \<^verbatim>\<open>rotation.go\<close> and \<^verbatim>\<open>rolling.go\<close> compute every boundary with \<^verbatim>\<open>time.Time\<close>:
  \<^verbatim>\<open>Add\<close>, \<^verbatim>\<open>AddDate\<close>, \<^verbatim>\<open>time.Date\<close>, the field accessors, \<^verbatim>\<open>Unix\<close>, \<^verbatim>\<open>Before\<close> and
  \<^verbatim>\<open>Format\<close>. A \<^verbatim>\<open>time.Time\<close> is an instant (seconds since the Unix epoch and
  nanoseconds within the second) together with a \<^verbatim>\<open>*time.Location\<close>. Seconds are
  unbounded integers here: Go's saturation at the ends of the \<^verbatim>\<open>int64\<close> range, some 292
  billion years away from the epoch, is left out.

  A location is the zone offset (seconds east of UTC) in force before its first
  transition, and its transitions \<open>(when, offset)\<close> in ascending order of \<open>when\<close>, as the
  \<^verbatim>\<open>tx\<close> table of a loaded zone file has them. \<^verbatim>\<open>time.UTC\<close> and \<^verbatim>\<open>time.FixedZone\<close>
  have no transition.
\<close>

record Location =
  zone0 :: int
  tx :: "(int \<times> int) list"

definition UTC :: Location where
  "UTC = \<lparr>zone0 = 0, tx = []\<rparr>"

definition FixedZone :: "int \<Rightarrow> Location" where
  "FixedZone offset = \<lparr>zone0 = offset, tx = []\<rparr>"

text \<open>
  \<^verbatim>\<open>Location.lookup\<close>: the offset in force at the instant \<open>s\<close>, and the interval
  \<open>[start, end)\<close> of instants over which it is in force; \<open>None\<close> is Go's \<^verbatim>\<open>alpha\<close>
  (for the start) or \<^verbatim>\<open>omega\<close> (for the end).
\<close>

fun zone_at :: "int \<Rightarrow> int option \<Rightarrow> (int \<times> int) list \<Rightarrow> int \<Rightarrow> int \<times> int option \<times> int option" where
  "zone_at off start [] s = (off, start, None)"
| "zone_at off start ((w, off') # rest) s =
     (if s < w then (off, start, Some w) else zone_at off' (Some w) rest s)"

definition lookup :: "Location \<Rightarrow> int \<Rightarrow> int \<times> int option \<times> int option" where
  "lookup l s = zone_at (zone0 l) None (tx l) s"

record Time =
  sec :: int
  nsec :: int
  loc :: Location

definition secondsPerDay :: int where
  "secondsPerDay = 86400"

definition daysPer400Years :: int where
  "daysPer400Years = 365 * 400 + 97"

definition daysPer100Years :: int where
  "daysPer100Years = 365 * 100 + 24"

definition daysPer4Years :: int where
  "daysPer4Years = 365 * 4 + 1"

text \<open>
  Go counts calendar days from a year that is 1 modulo 400; with unbounded integers and
  flooring division that year can be year 1 itself, so absolute seconds are seconds since
  January 1 of year 1, 00:00:00 (Go's \<^verbatim>\<open>unixToInternal\<close> apart from the Unix epoch).
\<close>

definition unixToInternal :: int where
  "unixToInternal = (1969 * 365 + 1969 div 4 - 1969 div 100 + 1969 div 400) * secondsPerDay"

definition abs_of :: "Time \<Rightarrow> int" where
  "abs_of t = sec t + fst (lookup (loc t) (sec t)) + unixToInternal"

definition isLeap :: "int \<Rightarrow> bool" where
  "isLeap year \<longleftrightarrow> year mod 4 = 0 \<and> (year mod 100 \<noteq> 0 \<or> year mod 400 = 0)"

definition daysBefore :: "int \<Rightarrow> int" where
  "daysBefore m = [0, 31, 59, 90, 120, 151, 181, 212, 243, 273, 304, 334, 365] ! nat m"

text \<open>
  \<^verbatim>\<open>absDate\<close>, in two halves: the year and the day within the year, by cutting off 400-year,
  100-year, 4-year and 1-year cycles (\<^verbatim>\<open>n -= n >> 2\<close> is \<open>n - n div 4\<close>), then the month
  and the day of the month from the table \<^verbatim>\<open>daysBefore\<close>.
\<close>

definition absYear :: "int \<Rightarrow> int \<times> int" where
  "absYear ab =
     (let d = ab div secondsPerDay;
          n400 = d div daysPer400Years;
          d = d - daysPer400Years * n400;
          n = d div daysPer100Years;
          n100 = n - n div 4;
          d = d - daysPer100Years * n100;
          n4 = d div daysPer4Years;
          d = d - daysPer4Years * n4;
          n = d div 365;
          n1 = n - n div 4;
          d = d - 365 * n1
      in (400 * n400 + 100 * n100 + 4 * n4 + n1 + 1, d))"

definition monthDay :: "int \<Rightarrow> int \<Rightarrow> int \<times> int" where
  "monthDay year yday =
     (if isLeap year \<and> yday = 31 + 29 - 1 then (2, 29)
      else
        let day = (if isLeap year \<and> yday > 31 + 29 - 1 then yday - 1 else yday);
            month = day div 31;
            end = daysBefore (month + 1)
        in if day \<ge> end then (month + 2, day - end + 1)
           else (month + 1, day - daysBefore month + 1))"

definition Year :: "Time \<Rightarrow> int" where
  "Year t = fst (absYear (abs_of t))"

definition Month :: "Time \<Rightarrow> int" where
  "Month t = (case absYear (abs_of t) of (year, yday) \<Rightarrow> fst (monthDay year yday))"

definition Day :: "Time \<Rightarrow> int" where
  "Day t = (case absYear (abs_of t) of (year, yday) \<Rightarrow> snd (monthDay year yday))"

definition Hour :: "Time \<Rightarrow> int" where
  "Hour t = (abs_of t mod secondsPerDay) div 3600"

definition Minute :: "Time \<Rightarrow> int" where
  "Minute t = (abs_of t mod 3600) div 60"

definition Second :: "Time \<Rightarrow> int" where
  "Second t = abs_of t mod 60"

definition Nanosecond :: "Time \<Rightarrow> int" where
  "Nanosecond t = nsec t"

definition Unix :: "Time \<Rightarrow> int" where
  "Unix t = sec t"

definition In :: "Time \<Rightarrow> Location \<Rightarrow> Time" where
  "In t l = t\<lparr>loc := l\<rparr>"

definition Before :: "Time \<Rightarrow> Time \<Rightarrow> bool" where
  "Before t u \<longleftrightarrow> sec t < sec u \<or> (sec t = sec u \<and> nsec t < nsec u)"


text \<open>
  \<^verbatim>\<open>time.Unix(sec, nsec)\<close> for \<open>0 \<le> nsec < 1e9\<close>. Its result is in the process's local
  zone; the appender replaces that zone with \<^verbatim>\<open>In\<close> at once, so it is UTC here.
\<close>

definition Local :: Location where
  "Local = UTC"

definition time_Unix :: "int \<Rightarrow> int \<Rightarrow> Time" where
  "time_Unix s ns = \<lparr>sec = s, nsec = ns, loc = Local\<rparr>"

text \<open>A \<^verbatim>\<open>time.Duration\<close> is a number of nanoseconds.\<close>

definition Minute_d :: int where
  "Minute_d = 60 * 1000000000"

definition Hour_d :: int where
  "Hour_d = 60 * Minute_d"

definition Add :: "Time \<Rightarrow> int \<Rightarrow> Time" where
  "Add t d =
     (let dsec = d sdiv 1000000000;
          ns = nsec t + d smod 1000000000;
          (dsec, ns) = (if ns \<ge> 1000000000 then (dsec + 1, ns - 1000000000)
                        else if ns < 0 then (dsec - 1, ns + 1000000000)
                        else (dsec, ns))
      in t\<lparr>sec := sec t + dsec, nsec := ns\<rparr>)"

definition norm :: "int \<Rightarrow> int \<Rightarrow> int \<Rightarrow> int \<times> int" where
  "norm hi lo base =
     (let (hi, lo) = (if lo < 0 then (let n = (- lo - 1) div base + 1 in (hi - n, lo + n * base))
                      else (hi, lo))
      in if lo \<ge> base then (let n = lo div base in (hi + n, lo - n * base)) else (hi, lo))"

definition daysSinceEpoch :: "int \<Rightarrow> int" where
  "daysSinceEpoch year =
     (let y = year - 1;
          n = y div 400;
          y = y - 400 * n;
          d = daysPer400Years * n;
          n = y div 100;
          y = y - 100 * n;
          d = d + daysPer100Years * n;
          n = y div 4;
          y = y - 4 * n;
          d = d + daysPer4Years * n
      in d + 365 * y)"

text \<open>
  \<^verbatim>\<open>time.Date\<close>: normalise the fields, count the days, and subtract a zone offset. The
  offset is looked up at the local time read as if it were UTC; when the instant that
  gives is outside the interval of that offset, the offset in force at that instant is
  taken instead. Near a transition the local time may exist twice or not at all, and
  this choice decides which instant comes back.
\<close>

definition time_Date :: "int \<Rightarrow> int \<Rightarrow> int \<Rightarrow> int \<Rightarrow> int \<Rightarrow> int \<Rightarrow> int \<Rightarrow> Location \<Rightarrow> Time" where
  "time_Date year month day hour minute second ns l =
     (let (year, m) = norm year (month - 1) 12;
          month = m + 1;
          (second, ns) = norm second ns 1000000000;
          (minute, second) = norm minute second 60;
          (hour, minute) = norm hour minute 60;
          (day, hour) = norm day hour 24;
          d = daysSinceEpoch year + daysBefore (month - 1)
              + (if isLeap year \<and> month \<ge> 3 then 1 else 0) + (day - 1);
          ab = d * secondsPerDay + (hour * 3600 + minute * 60 + second);
          unix = ab - unixToInternal;
          (offset, start, end) = lookup l unix;
          unix = (if offset \<noteq> 0 then
                    (let utc = unix - offset;
                         outside = (case start of None \<Rightarrow> False | Some a \<Rightarrow> utc < a)
                                   \<or> (case end of None \<Rightarrow> False | Some b \<Rightarrow> utc \<ge> b);
                         offset = (if outside then fst (lookup l utc) else offset)
                     in unix - offset)
                  else unix)
      in \<lparr>sec = unix, nsec = ns, loc = l\<rparr>)"

definition AddDate :: "Time \<Rightarrow> int \<Rightarrow> int \<Rightarrow> int \<Rightarrow> Time" where
  "AddDate t years months days =
     time_Date (Year t + years) (Month t + months) (Day t + days)
       (Hour t) (Minute t) (Second t) (nsec t) (loc t)"

section \<open>\<^verbatim>\<open>rotation.go\<close>\<close>

type_synonym RotationKind = "8 word"

record rotation =
  kind :: RotationKind

definition newRotation :: "RotationKind \<Rightarrow> rotation" where
  "newRotation k = \<lparr>kind = k\<rparr>"

definition Never :: rotation where
  "Never = newRotation 0"

definition Minutely :: rotation where
  "Minutely = newRotation 1"

definition Hourly :: rotation where
  "Hourly = newRotation 2"

definition Daily :: rotation where
  "Daily = newRotation 3"

datatype panic = Unreachable | NilPointerDereference

text \<open>\<^verbatim>\<open>roundDate\<close> panics with "unreachable" for a kind outside 1, 2, 3.\<close>

definition roundDate :: "rotation \<Rightarrow> Time \<Rightarrow> panic + Time" where
  "roundDate r date =
     (if kind r = 1 then
        Inr (time_Date (Year date) (Month date) (Day date) (Hour date) (Minute date) 0 0 (loc date))
      else if kind r = 2 then
        Inr (time_Date (Year date) (Month date) (Day date) (Hour date) 0 0 0 (loc date))
      else if kind r = 3 then
        Inr (time_Date (Year date) (Month date) (Day date) (Hour date) 0 0 0 (loc date))
      else Inl Unreachable)"

text \<open>\<^verbatim>\<open>NextDate\<close> returns a pointer: \<open>None\<close> is \<^verbatim>\<open>nil\<close>.\<close>

definition NextDate :: "rotation \<Rightarrow> Time \<Rightarrow> panic + Time option" where
  "NextDate r current =
     (if kind r = 1 then map_sum id Some (roundDate r (Add current Minute_d))
      else if kind r = 2 then map_sum id Some (roundDate r (Add current Hour_d))
      else if kind r = 3 then map_sum id Some (roundDate r (AddDate current 0 0 1))
      else Inr None)"

section \<open>\<^verbatim>\<open>Time.Format\<close>\<close>

text \<open>
  \<^verbatim>\<open>appendInt\<close> writes a number in decimal, padded with zeros to a width. \<^verbatim>\<open>Format\<close>
  walks the layout and replaces each reference element by the field it stands for. The
  numeric elements are modelled (\<^verbatim>\<open>2006 06 01 1 02 2 _2 15 03 3 04 4 05 5\<close>), which
  covers the appender's default layout; the names of months and weekdays, AM/PM, zone and
  fractional-second elements are copied as they stand.
\<close>

fun decimal :: "nat \<Rightarrow> string" where
  "decimal n = (if n < 10 then [char_of (48 + n)] else decimal (n div 10) @ [char_of (48 + n mod 10)])"

definition appendInt :: "int \<Rightarrow> nat \<Rightarrow> string" where
  "appendInt x width =
     (let ds = decimal (nat \<bar>x\<bar>);
          padded = replicate (width - length ds) (CHR ''0'') @ ds
      in if x < 0 then CHR ''-'' # padded else padded)"

definition hour12 :: "int \<Rightarrow> int" where
  "hour12 h = (if h mod 12 = 0 then 12 else h mod 12)"

fun Format :: "Time \<Rightarrow> string \<Rightarrow> string" where
  "Format t [] = []"
| "Format t (c # cs) =
     (if prefix ''2006'' (c # cs) then appendInt (Year t) 4 @ Format t (drop 3 cs)
      else if prefix ''_2006'' (c # cs) then c # appendInt (Year t) 4 @ Format t (drop 4 cs)
      else if prefix ''_2'' (c # cs) then
        (if Day t < 10 then '' '' else []) @ appendInt (Day t) 0 @ Format t (drop 1 cs)
      else if prefix ''01'' (c # cs) then appendInt (Month t) 2 @ Format t (drop 1 cs)
      else if prefix ''02'' (c # cs) then appendInt (Day t) 2 @ Format t (drop 1 cs)
      else if prefix ''03'' (c # cs) then appendInt (hour12 (Hour t)) 2 @ Format t (drop 1 cs)
      else if prefix ''04'' (c # cs) then appendInt (Minute t) 2 @ Format t (drop 1 cs)
      else if prefix ''05'' (c # cs) then appendInt (Second t) 2 @ Format t (drop 1 cs)
      else if prefix ''06'' (c # cs) then appendInt (\<bar>Year t\<bar> mod 100) 2 @ Format t (drop 1 cs)
      else if prefix ''15'' (c # cs) then appendInt (Hour t) 2 @ Format t (drop 1 cs)
      else if c = CHR ''1'' then appendInt (Month t) 0 @ Format t cs
      else if c = CHR ''2'' then appendInt (Day t) 0 @ Format t cs
      else if c = CHR ''3'' then appendInt (hour12 (Hour t)) 0 @ Format t cs
      else if c = CHR ''4'' then appendInt (Minute t) 0 @ Format t cs
      else if c = CHR ''5'' then appendInt (Second t) 0 @ Format t cs
      else c # Format t cs)"

section \<open>\<^verbatim>\<open>rolling.go\<close>: the world the appender runs in\<close>

text \<open>
  The appender reads the clock and works on one directory. The world is that directory
  (its entries in the order \<^verbatim>\<open>os.ReadDir\<close> lists them), the failures the operating
  system answers with, the table of open file descriptors, and what was printed on the
  standard error stream. A path inside the directory is kept as the pair that
  \<^verbatim>\<open>path.Join\<close> receives: the directory and the name of the entry.
\<close>

type_synonym byte = "8 word"

datatype error = ErrPermission | ErrNotExist | ErrIsDir | ErrNoSpace | ErrClosed | ErrInvalid

definition Error :: "error \<Rightarrow> string" where
  "Error e = (case e of ErrPermission \<Rightarrow> ''permission denied''
      | ErrNotExist \<Rightarrow> ''file does not exist''
      | ErrIsDir \<Rightarrow> ''is a directory''
      | ErrNoSpace \<Rightarrow> ''no space left on device''
      | ErrClosed \<Rightarrow> ''file already closed''
      | ErrInvalid \<Rightarrow> ''invalid argument'')"

datatype 'a result = Ok 'a | Err error | Panic panic

type_synonym path = "string \<times> string"

definition path_Join :: "string \<Rightarrow> string \<Rightarrow> path" where
  "path_Join directory filename = (directory, filename)"

text \<open>
  A node of the directory: whether it is a directory, what \<^verbatim>\<open>times.Stat\<close> answers for
  it (an error, or a time specification with or without a birth time), the error
  \<^verbatim>\<open>os.Remove\<close> answers with if it refuses, and the bytes written to it.
\<close>

record node =
  is_dir :: bool
  stat :: "error + Time option"
  remove_err :: "error option"
  content :: "byte list"

record File =
  fd :: nat
  fname :: string

record world =
  entries :: "(string \<times> node) list"
  readdir_err :: "error option"
  open_err :: "error option"
  write_err :: "error option"
  getwd :: "error + string"
  fresh :: node
  next_fd :: nat
  open_fds :: "nat list"
  stderr :: "string list"

record DirEntry =
  Name :: string
  IsDir :: bool

definition Fprintln :: "world \<Rightarrow> string \<Rightarrow> world" where
  "Fprintln w line = w\<lparr>stderr := stderr w @ [line]\<rparr>"

definition os_Getwd :: "world \<Rightarrow> error + string" where
  "os_Getwd w = getwd w"

definition os_ReadDir :: "world \<Rightarrow> string \<Rightarrow> error + DirEntry list" where
  "os_ReadDir w directory =
     (case readdir_err w of
        Some e \<Rightarrow> Inl e
      | None \<Rightarrow> Inr (map (\<lambda>(name, n). \<lparr>Name = name, IsDir = is_dir n\<rparr>) (entries w)))"

definition times_Stat :: "world \<Rightarrow> path \<Rightarrow> error + Time option" where
  "times_Stat w p = (case map_of (entries w) (snd p) of None \<Rightarrow> Inl ErrNotExist | Some n \<Rightarrow> stat n)"

definition os_Remove :: "world \<Rightarrow> path \<Rightarrow> error option \<times> world" where
  "os_Remove w p =
     (case map_of (entries w) (snd p) of
        None \<Rightarrow> (Some ErrNotExist, w)
      | Some n \<Rightarrow>
          (case remove_err n of
             Some e \<Rightarrow> (Some e, w)
           | None \<Rightarrow> (None, w\<lparr>entries := filter (\<lambda>e. fst e \<noteq> snd p) (entries w)\<rparr>)))"

text \<open>\<^verbatim>\<open>os.OpenFile(name, O_APPEND|O_CREATE|O_WRONLY, 0666)\<close>.\<close>

definition os_OpenFile :: "world \<Rightarrow> path \<Rightarrow> (error + File) \<times> world" where
  "os_OpenFile w p =
     (case open_err w of
        Some e \<Rightarrow> (Inl e, w)
      | None \<Rightarrow>
          (case map_of (entries w) (snd p) of
             Some n \<Rightarrow>
               (if is_dir n then (Inl ErrIsDir, w)
                else (Inr \<lparr>fd = next_fd w, fname = snd p\<rparr>,
                      w\<lparr>next_fd := next_fd w + 1, open_fds := next_fd w # open_fds w\<rparr>))
           | None \<Rightarrow>
               (Inr \<lparr>fd = next_fd w, fname = snd p\<rparr>,
                w\<lparr>entries := entries w @ [(snd p, fresh w)],
                  next_fd := next_fd w + 1, open_fds := next_fd w # open_fds w\<rparr>)))"

definition File_Close :: "world \<Rightarrow> File \<Rightarrow> error option \<times> world" where
  "File_Close w f =
     (if fd f \<in> set (open_fds w) then (None, w\<lparr>open_fds := removeAll (fd f) (open_fds w)\<rparr>)
      else (Some ErrClosed, w))"

text \<open>
  \<^verbatim>\<open>File.Write\<close> in append mode: the bytes go to the end of the entry the descriptor was
  opened under, when the directory still has it.
\<close>

definition File_Write :: "world \<Rightarrow> File \<Rightarrow> byte list \<Rightarrow> (int \<times> error option) \<times> world" where
  "File_Write w f p =
     (if fd f \<notin> set (open_fds w) then ((0, Some ErrClosed), w)
      else case write_err w of
        Some e \<Rightarrow> ((0, Some e), w)
      | None \<Rightarrow>
          ((int (length p), None),
           w\<lparr>entries := map (\<lambda>(name, n). if name = fname f then (name, n\<lparr>content := content n @ p\<rparr>)
                                          else (name, n)) (entries w)\<rparr>))"

section \<open>\<^verbatim>\<open>rolling.go\<close>: the appender\<close>

record Config =
  Rotation :: rotation
  Directory :: string
  FilenamePrefix :: string
  FilenameSuffix :: string
  TimeLocation :: "Location option"
  MaxFiles :: "32 word"
  DateFormat :: string

record state =
  logDirectory :: string
  logFilenamePrefix :: string
  logFilenameSuffix :: string
  maxFiles :: "32 word"
  rotation :: rotation
  dateFormat :: string
  timeLocation :: Location
  nextDate :: int

record RollingFileAppender =
  state :: state
  "file" :: "File option"

record LogEntry =
  FullPath :: path
  Ctime :: Time

text \<open>\<^verbatim>\<open>getNow\<close>: the clock reading \<^verbatim>\<open>time.Now()\<close> is an input.\<close>

definition getNow :: "state \<Rightarrow> Time \<Rightarrow> Time" where
  "getNow s clock = In clock (timeLocation s)"

definition newState :: "Config \<Rightarrow> world \<Rightarrow> Time \<Rightarrow> state result" where
  "newState config w clock =
     (let s = \<lparr>logDirectory = Directory config,
               logFilenamePrefix = FilenamePrefix config,
               logFilenameSuffix = FilenameSuffix config,
               maxFiles = MaxFiles config,
               rotation = Rotation config,
               dateFormat = DateFormat config,
               timeLocation = (case TimeLocation config of None \<Rightarrow> UTC | Some l \<Rightarrow> l),
               nextDate = 0\<rparr>;
          s = (if length (dateFormat s) = 0 then s\<lparr>dateFormat := ''20060102_15:04:05''\<rparr> else s)
      in case (if length (logDirectory s) = 0
               then (case os_Getwd w of Inl err \<Rightarrow> Err err | Inr pwd \<Rightarrow> Ok (s\<lparr>logDirectory := pwd\<rparr>))
               else Ok s) of
           Ok s \<Rightarrow>
             (case NextDate (rotation s) (getNow s clock) of
                Inl p \<Rightarrow> Panic p
              | Inr None \<Rightarrow> Ok s
              | Inr (Some nd) \<Rightarrow> Ok (s\<lparr>nextDate := Unix nd\<rparr>))
         | Err e \<Rightarrow> Err e
         | Panic p \<Rightarrow> Panic p)"

definition HasPrefix :: "string \<Rightarrow> string \<Rightarrow> bool" where
  "HasPrefix s pre = prefix pre s"

definition HasSuffix :: "string \<Rightarrow> string \<Rightarrow> bool" where
  "HasSuffix s suf = suffix suf s"

text \<open>The loop of \<^verbatim>\<open>prune_old_logs\<close> over the directory entries, collecting \<^verbatim>\<open>files\<close>.\<close>

fun scan_entries :: "state \<Rightarrow> world \<Rightarrow> DirEntry list \<Rightarrow> LogEntry list \<Rightarrow> LogEntry list \<times> world" where
  "scan_entries s w [] files = (files, w)"
| "scan_entries s w (entry # rest) files =
     (if IsDir entry then scan_entries s w rest files
      else
        let filename = Name entry in
        if length (logFilenamePrefix s) > 0 \<and> \<not> HasPrefix filename (logFilenamePrefix s)
        then scan_entries s w rest files
        else if length (logFilenameSuffix s) > 0 \<and> \<not> HasSuffix filename (logFilenameSuffix s)
        then scan_entries s w rest files
        else
          let fullPath = path_Join (logDirectory s) filename in
          case times_Stat w fullPath of
            Inl err \<Rightarrow> scan_entries s (Fprintln w (''failed to read file '' @ Error err)) rest files
          | Inr None \<Rightarrow> scan_entries s w rest files
          | Inr (Some birth) \<Rightarrow>
              scan_entries s w rest (files @ [\<lparr>FullPath = fullPath, Ctime = birth\<rparr>]))"

text \<open>The loop that removes \<^verbatim>\<open>files[0]\<close> up to \<^verbatim>\<open>files[len(files)-maxFiles]\<close>.\<close>

fun remove_loop :: "world \<Rightarrow> LogEntry list \<Rightarrow> world" where
  "remove_loop w [] = w"
| "remove_loop w (f # fs) =
     (case os_Remove w (FullPath f) of
        (None, w') \<Rightarrow> remove_loop w' fs
      | (Some err, w') \<Rightarrow>
          remove_loop (Fprintln w' (''failed to remove the log entry '' @ Error err)) fs)"

text \<open>
  \<^verbatim>\<open>sort.Slice\<close> is not stable, so which of two files with the same birth time comes
  first is not fixed by the source. The sorting function is the parameter \<open>srt\<close>; what
  \<^verbatim>\<open>sort.Slice\<close> promises for the comparison \<^verbatim>\<open>files[i].Ctime.Before(files[j].Ctime)\<close> is
  \<open>sorts_by_Ctime\<close>. \<open>insort_Ctime\<close> and \<open>sort_Ctime\<close> are one such function.
\<close>

definition sorts_by_Ctime :: "(LogEntry list \<Rightarrow> LogEntry list) \<Rightarrow> LogEntry list \<Rightarrow> bool" where
  "sorts_by_Ctime srt files \<longleftrightarrow>
     mset (srt files) = mset files
     \<and> sorted_wrt (\<lambda>a b. \<not> Before (Ctime b) (Ctime a)) (srt files)"

fun insort_Ctime :: "LogEntry \<Rightarrow> LogEntry list \<Rightarrow> LogEntry list" where
  "insort_Ctime x [] = [x]"
| "insort_Ctime x (y # ys) =
     (if Before (Ctime y) (Ctime x) then y # insort_Ctime x ys else x # y # ys)"

definition sort_Ctime :: "LogEntry list \<Rightarrow> LogEntry list" where
  "sort_Ctime files = foldr insort_Ctime files []"

definition prune_old_logs :: "(LogEntry list \<Rightarrow> LogEntry list) \<Rightarrow> state \<Rightarrow> world \<Rightarrow> world" where
  "prune_old_logs srt s w =
     (if maxFiles s = 0 then w
      else case os_ReadDir w (logDirectory s) of
        Inl err \<Rightarrow> Fprintln w (''failed to read dir '' @ Error err)
      | Inr dir_entries \<Rightarrow>
          (case scan_entries s w dir_entries [] of
             (files, w) \<Rightarrow>
               if int (length files) < uint (maxFiles s) then w
               else remove_loop w
                      (take (nat (int (length files) - uint (maxFiles s) + 1)) (srt files))))"

definition joinDate :: "state \<Rightarrow> Time \<Rightarrow> string" where
  "joinDate s date =
     (let dateStr = Format date (dateFormat s) in
      if rotation s = Never then
        (if length (logFilenamePrefix s) > 0 \<and> length (logFilenameSuffix s) > 0
         then logFilenamePrefix s @ logFilenameSuffix s
         else if length (logFilenamePrefix s) > 0 then logFilenamePrefix s
         else if length (logFilenameSuffix s) > 0 then logFilenameSuffix s
         else dateStr)
      else
        (if length (logFilenamePrefix s) > 0 \<and> length (logFilenameSuffix s) > 0
         then logFilenamePrefix s @ dateStr @ logFilenameSuffix s
         else if length (logFilenamePrefix s) > 0 then logFilenamePrefix s @ dateStr
         else if length (logFilenameSuffix s) > 0 then dateStr @ logFilenameSuffix s
         else dateStr))"

definition createFile :: "state \<Rightarrow> world \<Rightarrow> Time \<Rightarrow> (error + File) \<times> world" where
  "createFile s w date = os_OpenFile w (path_Join (logDirectory s) (joinDate s date))"

text \<open>
  \<^verbatim>\<open>shouldRollover\<close> loads \<^verbatim>\<open>nextDate\<close> and returns a pointer (\<open>None\<close> is \<^verbatim>\<open>nil\<close>); it
  takes the state and gives none back, as it writes nothing.
\<close>

definition shouldRollover :: "state \<Rightarrow> Time \<Rightarrow> Time option" where
  "shouldRollover s date =
     (if nextDate s = 0 then None
      else if Unix date \<ge> nextDate s then Some (In (time_Unix (nextDate s) 0) (timeLocation s))
      else None)"

text \<open>\<^verbatim>\<open>atomic.CompareAndSwapInt64\<close> on the cell holding \<open>cell\<close>: one indivisible step.\<close>

definition CompareAndSwapInt64 :: "int \<Rightarrow> int \<Rightarrow> int \<Rightarrow> bool \<times> int" where
  "CompareAndSwapInt64 cell old new = (if cell = old then (True, new) else (False, cell))"

text \<open>\<^verbatim>\<open>AdvanceDate\<close> calls \<^verbatim>\<open>Unix\<close> on the pointer \<^verbatim>\<open>NextDate\<close> returned without testing it.\<close>

definition AdvanceDate :: "state \<Rightarrow> Time \<Rightarrow> Time \<Rightarrow> (bool \<times> state) result" where
  "AdvanceDate s now current =
     (case NextDate (rotation s) now of
        Inl p \<Rightarrow> Panic p
      | Inr None \<Rightarrow> Panic NilPointerDereference
      | Inr (Some nd) \<Rightarrow>
          (case CompareAndSwapInt64 (nextDate s) (Unix current) (Unix nd) of
             (swapped, cell) \<Rightarrow> Ok (swapped, s\<lparr>nextDate := cell\<rparr>)))"

definition refreshFile ::
  "(LogEntry list \<Rightarrow> LogEntry list) \<Rightarrow> RollingFileAppender \<Rightarrow> world \<Rightarrow> Time
   \<Rightarrow> RollingFileAppender \<times> world" where
  "refreshFile srt r w now =
     (let w = (if maxFiles (state r) > 0 then prune_old_logs srt (state r) w else w) in
      case createFile (state r) w now of
        (Inl err, w) \<Rightarrow> (r, Fprintln w (Error err))
      | (Inr newFile, w) \<Rightarrow>
          (let w = (case file r of
                      None \<Rightarrow> w
                    | Some old \<Rightarrow>
                        (case File_Close w old of
                           (None, w) \<Rightarrow> w
                         | (Some err, w) \<Rightarrow> Fprintln w (Error err)))
           in (r\<lparr>file := Some newFile\<rparr>, w)))"

definition Write ::
  "(LogEntry list \<Rightarrow> LogEntry list) \<Rightarrow> RollingFileAppender \<Rightarrow> world \<Rightarrow> Time \<Rightarrow> byte list
   \<Rightarrow> ((int \<times> error option) \<times> RollingFileAppender \<times> world) result" where
  "Write srt r w clock p =
     (let now = getNow (state r) clock in
      case (case shouldRollover (state r) now of
              None \<Rightarrow> Ok (r, w)
            | Some current \<Rightarrow>
                (case AdvanceDate (state r) now current of
                   Ok (swapped, s) \<Rightarrow>
                     (if swapped then Ok (refreshFile srt (r\<lparr>state := s\<rparr>) w now)
                      else Ok (r\<lparr>state := s\<rparr>, w))
                 | Err e \<Rightarrow> Err e
                 | Panic x \<Rightarrow> Panic x)) of
        Ok (r, w) \<Rightarrow>
          (case file r of
             None \<Rightarrow> Ok ((0, Some ErrInvalid), r, w)
           | Some f \<Rightarrow> (case File_Write w f p of (res, w) \<Rightarrow> Ok (res, r, w)))
      | Err e \<Rightarrow> Err e
      | Panic x \<Rightarrow> Panic x)"

definition New :: "Config \<Rightarrow> world \<Rightarrow> Time \<Rightarrow> (RollingFileAppender \<times> world) result" where
  "New config w clock =
     (case newState config w clock of
        Ok s \<Rightarrow>
          (case createFile s w (getNow s clock) of
             (Inl err, w) \<Rightarrow> Err err
           | (Inr f, w) \<Rightarrow> Ok (\<lparr>state = s, file = Some f\<rparr>, w))
      | Err e \<Rightarrow> Err e
      | Panic x \<Rightarrow> Panic x)"

text \<open>
  The appenders that \<^verbatim>\<open>New\<close> and then any number of calls of \<^verbatim>\<open>Write\<close> produce, whatever
  the directory holds and the operating system answers at each call, with clock readings
  that satisfy \<open>C\<close>.
\<close>

inductive reachable :: "(Time \<Rightarrow> bool) \<Rightarrow> RollingFileAppender \<Rightarrow> bool" for C where
  reachable_New: "New config w clock = Ok (r, w') \<Longrightarrow> C clock \<Longrightarrow> reachable C r"
| reachable_Write:
    "reachable C r \<Longrightarrow> Write srt r w clock p = Ok (res, r', w') \<Longrightarrow> C clock \<Longrightarrow> reachable C r'"

section \<open>Two zones with a transition\<close>


definition Lord_Howe_2023 :: Location where
  "Lord_Howe_2023 = \<lparr>zone0 = 37800, tx = [(1696087800, 39600)]\<rparr>"

section \<open>Notions used to state the properties\<close>

text \<open>The kinds for which \<open>NextDate\<close> computes a boundary.\<close>

definition rotating :: "rotation \<Rightarrow> bool" where
  "rotating r \<longleftrightarrow> kind r = 1 \<or> kind r = 2 \<or> kind r = 3"


definition clock_after_epoch :: "Time \<Rightarrow> bool" where
  "clock_after_epoch c \<longleftrightarrow> 0 \<le> sec c \<and> 0 \<le> nsec c \<and> nsec c < 1000000000"

definition any_clock :: "Time \<Rightarrow> bool" where
  "any_clock c = True"

section \<open>A log directory and appenders on it\<close>

text \<open>
  A directory with two older logs and a file that is not a log, on which an appender is
  constructed at 2023-11-05 05:30:15 UTC (\<open>running\<close>, in \<open>running_dir\<close>) and rotates one
  minute later (\<open>rotated\<close>, in \<open>rotated_dir\<close>).
\<close>

definition plain_file :: "Time option \<Rightarrow> node" where
  "plain_file birth = \<lparr>is_dir = False, stat = Inr birth, remove_err = None, content = []\<rparr>"

definition utc_time :: "int \<Rightarrow> Time" where
  "utc_time s = \<lparr>sec = s, nsec = 0, loc = UTC\<rparr>"

definition old_log_dir :: world where
  "old_log_dir = \<lparr>entries =
       [(''app_20231105_05:28:15.log'', plain_file (Some (utc_time 1699162095))),
        (''app_20231105_05:29:15.log'', plain_file (Some (utc_time 1699162155))),
        (''notes.txt'', plain_file (Some (utc_time 1699000000)))],
     readdir_err = None, open_err = None, write_err = None,
     getwd = Inr ''/var/log'', fresh = plain_file (Some (utc_time 1699162215)),
     next_fd = 3, open_fds = [], stderr = []\<rparr>"

definition opened :: "world \<Rightarrow> string \<Rightarrow> world" where
  "opened w name = w\<lparr>entries := entries w @ [(name, fresh w)],
     next_fd := next_fd w + 1, open_fds := next_fd w # open_fds w\<rparr>"

definition minutely_config :: Config where
  "minutely_config = \<lparr>Rotation = Minutely, Directory = ''/var/log'', FilenamePrefix = ''app_'',
     FilenameSuffix = ''.log'', TimeLocation = None, MaxFiles = 2, DateFormat = []\<rparr>"

definition minutely_state :: "int \<Rightarrow> state" where
  "minutely_state boundary_sec = \<lparr>logDirectory = ''/var/log'', logFilenamePrefix = ''app_'',
     logFilenameSuffix = ''.log'', maxFiles = 2, rotation = Minutely,
     dateFormat = ''20060102_15:04:05'', timeLocation = UTC, nextDate = boundary_sec\<rparr>"

definition never_config :: Config where
  "never_config = \<lparr>Rotation = Never, Directory = ''/var/log'', FilenamePrefix = [],
     FilenameSuffix = [], TimeLocation = None, MaxFiles = 0, DateFormat = []\<rparr>"

definition never_state :: state where
  "never_state = \<lparr>logDirectory = ''/var/log'', logFilenamePrefix = [],
     logFilenameSuffix = [], maxFiles = 0, rotation = Never,
     dateFormat = ''20060102_15:04:05'', timeLocation = UTC, nextDate = 0\<rparr>"

definition running :: RollingFileAppender where
  "running = \<lparr>state = minutely_state 1699162260,
               file = Some \<lparr>fd = 3, fname = ''app_20231105_05:30:15.log''\<rparr>\<rparr>"

definition running_dir :: world where
  "running_dir = opened old_log_dir ''app_20231105_05:30:15.log''"

definition rotated :: RollingFileAppender where
  "rotated = \<lparr>state = minutely_state 1699162320,
               file = Some \<lparr>fd = 4, fname = ''app_20231105_05:31:15.log''\<rparr>\<rparr>"

definition rotated_dir :: world where
  "rotated_dir = old_log_dir\<lparr>entries :=
       [(''notes.txt'', plain_file (Some (utc_time 1699000000))),
        (''app_20231105_05:30:15.log'', plain_file (Some (utc_time 1699162215))),
        (''app_20231105_05:31:15.log'', plain_file (Some (utc_time 1699162215)))],
     next_fd := 5, open_fds := [4]\<rparr>"

section \<open>The calendar: fields of an instant and \<^verbatim>\<open>time.Date\<close> are inverse\<close>

lemma div_bounds:
  fixes x c :: int
  assumes "0 < c"
  shows "c * (x div c) \<le> x" and "x < c * (x div c) + c"
proof -
  have "x = c * (x div c) + x mod c" by simp
  moreover have "0 \<le> x mod c" "x mod c < c" using assms by simp_all
  ultimately show "c * (x div c) \<le> x" and "x < c * (x div c) + c" by linarith+
qed

lemma div_eq_of_bounds: "0 \<le> r \<Longrightarrow> r < b \<Longrightarrow> (b * q + r) div b = (q::int)"
  by (simp add: div_pos_pos_trivial)

lemma mod_eq_of_bounds: "0 \<le> r \<Longrightarrow> r < b \<Longrightarrow> (b * q + r) mod b = (r::int)"
  by (simp add: mod_pos_pos_trivial)

lemma clip4:
  fixes q :: int
  assumes "0 \<le> q" "q \<le> 4"
  shows "q - q div 4 = (if q = 4 then 3 else q)"
proof -
  from assms have "q = 0 \<or> q = 1 \<or> q = 2 \<or> q = 3 \<or> q = 4" by linarith
  then show ?thesis by auto
qed

lemma cycles_bounds:
  fixes d0 :: int
  assumes "0 \<le> d0" "d0 < 146097"
  defines "n100 \<equiv> d0 div 36524 - (d0 div 36524) div 4"
  defines "d1 \<equiv> d0 - 36524 * n100"
  defines "n4 \<equiv> d1 div 1461"
  defines "d2 \<equiv> d1 - 1461 * n4"
  defines "n1 \<equiv> d2 div 365 - (d2 div 365) div 4"
  defines "yday \<equiv> d2 - 365 * n1"
  shows "0 \<le> n100 \<and> n100 \<le> 3 \<and> 0 \<le> n4 \<and> n4 \<le> 24 \<and> 0 \<le> n1 \<and> n1 \<le> 3 \<and> 0 \<le> yday \<and> yday \<le> 365
         \<and> (yday = 365 \<longrightarrow> n1 = 3 \<and> (n4 = 24 \<longrightarrow> n100 = 3))"
proof -
  define q where "q = d0 div 36524"
  have q: "36524 * q \<le> d0" "d0 < 36524 * q + 36524"
    unfolding q_def using div_bounds [of 36524 d0] by simp_all
  have qr: "0 \<le> q" "q \<le> 4" using q assms(1,2) by linarith+
  have n100: "n100 = (if q = 4 then 3 else q)"
    unfolding n100_def q_def [symmetric] using clip4 [OF qr] .
  have a: "0 \<le> n100" "n100 \<le> 3" "0 \<le> d1" "d1 \<le> 36524" "n100 < 3 \<longrightarrow> d1 < 36524"
    using q qr assms(2) unfolding n100 d1_def by (auto split: if_splits)
  have n4: "1461 * n4 \<le> d1" "d1 < 1461 * n4 + 1461"
    unfolding n4_def using div_bounds [of 1461 d1] by simp_all
  have b: "0 \<le> n4" "n4 \<le> 24" "0 \<le> d2" "d2 < 1461"
    using n4 a unfolding d2_def by linarith+
  have b': "n4 = 24 \<Longrightarrow> d1 < 36524 \<Longrightarrow> d2 < 1460"
    unfolding d2_def by linarith
  define p where "p = d2 div 365"
  have p: "365 * p \<le> d2" "d2 < 365 * p + 365"
    unfolding p_def using div_bounds [of 365 d2] by simp_all
  have pr: "0 \<le> p" "p \<le> 4" using p b by linarith+
  have n1: "n1 = (if p = 4 then 3 else p)"
    unfolding n1_def p_def [symmetric] using clip4 [OF pr] .
  have c: "0 \<le> n1" "n1 \<le> 3" "0 \<le> yday" "yday \<le> 365" "yday = 365 \<longrightarrow> n1 = 3 \<and> d2 = 1460"
    using p pr b unfolding n1 yday_def by (auto split: if_splits)
  have "yday = 365 \<Longrightarrow> n4 = 24 \<Longrightarrow> n100 = 3"
    using c(5) b' a(2,5) by linarith
  with a b c show ?thesis by blast
qed

lemma cycle_consts:
  "secondsPerDay = 86400" "daysPer400Years = 146097" "daysPer100Years = 36524" "daysPer4Years = 1461"
  by (simp_all add: secondsPerDay_def daysPer400Years_def daysPer100Years_def daysPer4Years_def)

lemma absYear_unfold:
  fixes ab :: int
  defines "D \<equiv> ab div 86400"
  defines "d0 \<equiv> D - 146097 * (D div 146097)"
  defines "n100 \<equiv> d0 div 36524 - (d0 div 36524) div 4"
  defines "d1 \<equiv> d0 - 36524 * n100"
  defines "n4 \<equiv> d1 div 1461"
  defines "d2 \<equiv> d1 - 1461 * n4"
  defines "n1 \<equiv> d2 div 365 - (d2 div 365) div 4"
  shows "absYear ab = (400 * (D div 146097) + 100 * n100 + 4 * n4 + n1 + 1, d2 - 365 * n1)"
  unfolding absYear_def Let_def cycle_consts assms ..

lemma daysSinceEpoch_cycles:
  fixes n400 n100 n4 n1 :: int
  assumes "0 \<le> n100" "n100 \<le> 3" "0 \<le> n4" "n4 \<le> 24" "0 \<le> n1" "n1 \<le> 3"
  shows "daysSinceEpoch (400 * n400 + 100 * n100 + 4 * n4 + n1 + 1)
         = 146097 * n400 + 36524 * n100 + 1461 * n4 + 365 * n1"
proof -
  define y where "y = 400 * n400 + 100 * n100 + 4 * n4 + n1"
  have r1: "0 \<le> 100 * n100 + 4 * n4 + n1" "100 * n100 + 4 * n4 + n1 < 400"
    and r2: "0 \<le> 4 * n4 + n1" "4 * n4 + n1 < 100"
    using assms by linarith+
  have e1: "y div 400 = n400"
    using div_eq_of_bounds [OF r1, of n400] by (simp add: y_def add.assoc)
  have e2: "(y - 400 * n400) div 100 = n100"
    using div_eq_of_bounds [OF r2, of n100] by (simp add: y_def add.assoc)
  have e3: "(y - 400 * n400 - 100 * n100) div 4 = n4"
    using div_eq_of_bounds [of n1 4 n4] assms by (simp add: y_def)
  have "daysSinceEpoch (y + 1) = 146097 * n400 + 36524 * n100 + 1461 * n4 + 365 * n1"
    unfolding daysSinceEpoch_def Let_def cycle_consts add_diff_cancel_right' e1 e2 e3
    by (simp add: y_def)
  then show ?thesis by (simp add: y_def)
qed

lemma isLeap_cycles:
  fixes n400 n100 n4 :: int
  assumes "0 \<le> n100" "n100 \<le> 3" "0 \<le> n4" "n4 \<le> 24" "n4 = 24 \<longrightarrow> n100 = 3"
  shows "isLeap (400 * n400 + 100 * n100 + 4 * n4 + 3 + 1)"
proof -
  define year where "year = 400 * n400 + 100 * n100 + 4 * n4 + 3 + 1"
  have "year = 4 * (100 * n400 + 25 * n100 + n4 + 1) + 0" by (simp add: year_def)
  then have m4: "year mod 4 = 0"
    using mod_eq_of_bounds [of 0 4 "100 * n400 + 25 * n100 + n4 + 1"] by simp
  have "isLeap year"
  proof (cases "n4 = 24")
    case True
    with assms have "n100 = 3" by simp
    then have "year = 400 * (n400 + 1)" by (simp add: year_def True)
    then have "year mod 400 = 0" by simp
    with m4 show ?thesis by (simp add: isLeap_def)
  next
    case False
    with assms have b: "0 \<le> 4 * n4 + 4" "4 * n4 + 4 < 100" by linarith+
    have "year = 100 * (4 * n400 + n100) + (4 * n4 + 4)" by (simp add: year_def)
    then have "year mod 100 = 4 * n4 + 4"
      using mod_eq_of_bounds [OF b, of "4 * n400 + n100"] by simp
    with b assms have "year mod 100 \<noteq> 0" by linarith
    with m4 show ?thesis by (simp add: isLeap_def)
  qed
  then show ?thesis by (simp add: year_def)
qed

lemma absYear_spec:
  assumes "absYear ab = (year, yday)"
  shows "daysSinceEpoch year + yday = ab div secondsPerDay \<and> 0 \<le> yday \<and> yday \<le> 365
         \<and> (yday = 365 \<longrightarrow> isLeap year)"
proof -
  define D where "D = ab div 86400"
  define n400 where "n400 = D div 146097"
  define d0 where "d0 = D - 146097 * n400"
  define n100 where "n100 = d0 div 36524 - (d0 div 36524) div 4"
  define d1 where "d1 = d0 - 36524 * n100"
  define n4 where "n4 = d1 div 1461"
  define d2 where "d2 = d1 - 1461 * n4"
  define n1 where "n1 = d2 div 365 - (d2 div 365) div 4"
  have d0: "0 \<le> d0" "d0 < 146097"
    unfolding d0_def n400_def using div_bounds [of 146097 D] by simp_all
  have cb: "0 \<le> n100 \<and> n100 \<le> 3 \<and> 0 \<le> n4 \<and> n4 \<le> 24 \<and> 0 \<le> n1 \<and> n1 \<le> 3
      \<and> 0 \<le> d2 - 365 * n1 \<and> d2 - 365 * n1 \<le> 365
      \<and> (d2 - 365 * n1 = 365 \<longrightarrow> n1 = 3 \<and> (n4 = 24 \<longrightarrow> n100 = 3))"
    unfolding n1_def d2_def n4_def d1_def n100_def by (rule cycles_bounds [OF d0])
  have "absYear ab = (400 * n400 + 100 * n100 + 4 * n4 + n1 + 1, d2 - 365 * n1)"
    unfolding n1_def d2_def n4_def d1_def n100_def d0_def n400_def D_def by (rule absYear_unfold)
  with assms have yr: "year = 400 * n400 + 100 * n100 + 4 * n4 + n1 + 1" and yd: "yday = d2 - 365 * n1"
    by simp_all
  have dse: "daysSinceEpoch year = 146097 * n400 + 36524 * n100 + 1461 * n4 + 365 * n1"
    unfolding yr using cb by (intro daysSinceEpoch_cycles) simp_all
  have s1: "daysSinceEpoch year + yday = ab div secondsPerDay"
    unfolding dse yd d2_def d1_def d0_def D_def cycle_consts by simp
  have leap: "isLeap year" if "yday = 365"
  proof -
    from that cb yd have n1: "n1 = 3" and imp: "n4 = 24 \<longrightarrow> n100 = 3" by auto
    show ?thesis unfolding yr n1 using cb imp by (intro isLeap_cycles) simp_all
  qed
  from s1 cb yd leap show ?thesis by auto
qed

lemma daysBefore_simps:
  "daysBefore 0 = 0" "daysBefore 1 = 31" "daysBefore 2 = 59" "daysBefore 3 = 90"
  "daysBefore 4 = 120" "daysBefore 5 = 151" "daysBefore 6 = 181" "daysBefore 7 = 212"
  "daysBefore 8 = 243" "daysBefore 9 = 273" "daysBefore 10 = 304" "daysBefore 11 = 334"
  "daysBefore 12 = 365"
  by (simp_all add: daysBefore_def)

lemma month_table:
  fixes day :: int
  assumes "0 \<le> day" "day < 365"
  defines "k \<equiv> day div 31"
  assumes md: "(m, d) = (if day \<ge> daysBefore (k + 1) then (k + 2, day - daysBefore (k + 1) + 1)
                     else (k + 1, day - daysBefore k + 1))"
  shows "1 \<le> m \<and> m \<le> 12 \<and> daysBefore (m - 1) + (d - 1) = day \<and> (3 \<le> m \<longleftrightarrow> 59 \<le> day)"
proof -
  have k: "31 * k \<le> day" "day < 31 * k + 31"
    unfolding k_def using div_bounds [of 31 day] by simp_all
  with assms(1,2) have "0 \<le> k" "k \<le> 11" by linarith+
  then have "k = 0 \<or> k = 1 \<or> k = 2 \<or> k = 3 \<or> k = 4 \<or> k = 5 \<or> k = 6 \<or> k = 7 \<or> k = 8
      \<or> k = 9 \<or> k = 10 \<or> k = 11" by arith
  then show ?thesis
    using k md assms(1,2) by (elim disjE) (auto simp: daysBefore_simps split: if_splits)
qed

lemma monthDay_spec:
  assumes "0 \<le> yday" "yday < 365 \<or> (isLeap year \<and> yday = 365)" "monthDay year yday = (m, d)"
  shows "1 \<le> m \<and> m \<le> 12
         \<and> daysBefore (m - 1) + (if isLeap year \<and> 3 \<le> m then 1 else 0) + (d - 1) = yday"
proof (cases "isLeap year \<and> yday = 59")
  case True
  with assms(3) have "m = 2" "d = 29" by (simp_all add: monthDay_def)
  with True show ?thesis by (simp add: daysBefore_simps)
next
  case False
  define day where "day = (if isLeap year \<and> yday > 59 then yday - 1 else yday)"
  have rng: "0 \<le> day" "day < 365" using assms(1,2) by (auto simp: day_def)
  have day_alt: "(if isLeap year \<and> yday > 31 + 29 - 1 then yday - 1 else yday) = day"
    by (simp add: day_def)
  have nl: "\<not> (isLeap year \<and> yday = 31 + 29 - 1)" using False by simp
  have "(m, d) = (if day \<ge> daysBefore (day div 31 + 1)
                  then (day div 31 + 2, day - daysBefore (day div 31 + 1) + 1)
                  else (day div 31 + 1, day - daysBefore (day div 31) + 1))"
    using assms(3) unfolding monthDay_def Let_def day_alt if_not_P [OF nl] by simp
  from month_table [OF rng this]
  have t: "1 \<le> m" "m \<le> 12" "daysBefore (m - 1) + (d - 1) = day" "3 \<le> m \<longleftrightarrow> 59 \<le> day"
    by simp_all
  show ?thesis using t False by (auto simp: day_def split: if_splits)
qed

lemma norm_in_range:
  "0 \<le> lo \<Longrightarrow> lo < base \<Longrightarrow> norm hi lo base = (hi, lo)"
  by (simp add: norm_def)

lemma lookup_fixed: "tx l = [] \<Longrightarrow> lookup l s = (zone0 l, None, None)"
  by (simp add: lookup_def)

lemma time_Date_fixed:
  assumes "tx l = []" "1 \<le> mo" "mo \<le> 12" "0 \<le> h" "h < 24" "0 \<le> mi" "mi < 60"
    "0 \<le> s" "s < 60" "0 \<le> ns" "ns < 1000000000"
  shows "time_Date y mo d h mi s ns l =
           \<lparr>sec = (daysSinceEpoch y + daysBefore (mo - 1) + (if isLeap y \<and> 3 \<le> mo then 1 else 0)
                    + (d - 1)) * secondsPerDay + (h * 3600 + mi * 60 + s) - unixToInternal - zone0 l,
            nsec = ns, loc = l\<rparr>"
proof -
  have n1: "norm y (mo - 1) 12 = (y, mo - 1)" using assms by (intro norm_in_range) simp_all
  have n2: "norm s ns 1000000000 = (s, ns)" using assms by (intro norm_in_range) simp_all
  have n3: "norm mi s 60 = (mi, s)" using assms by (intro norm_in_range) simp_all
  have n4: "norm h mi 60 = (h, mi)" using assms by (intro norm_in_range) simp_all
  have n5: "norm d h 24 = (d, h)" using assms by (intro norm_in_range) simp_all
  show ?thesis
    unfolding time_Date_def n1 n2 n3 n4 n5 Let_def prod.case lookup_fixed [OF assms(1)]
    by simp
qed

lemma clock_parts:
  fixes a :: int
  shows "(a mod 86400) div 3600 * 3600 = a mod 86400 - a mod 3600"
    and "(a mod 3600) div 60 * 60 = a mod 3600 - a mod 60"
proof -
  have "(a mod 86400) mod 3600 = a mod 3600" by (simp add: mod_mod_cancel)
  then show "(a mod 86400) div 3600 * 3600 = a mod 86400 - a mod 3600"
    using div_mult_mod_eq [of "a mod 86400" 3600] by linarith
  have "(a mod 3600) mod 60 = a mod 60" by (simp add: mod_mod_cancel)
  then show "(a mod 3600) div 60 * 60 = a mod 3600 - a mod 60"
    using div_mult_mod_eq [of "a mod 3600" 60] by linarith
qed

lemma clock_ranges:
  "0 \<le> Hour t \<and> Hour t < 24 \<and> 0 \<le> Minute t \<and> Minute t < 60 \<and> 0 \<le> Second t \<and> Second t < 60"
proof -
  have h: "0 \<le> abs_of t mod 86400" "abs_of t mod 86400 < 86400" by simp_all
  have m: "0 \<le> abs_of t mod 3600" "abs_of t mod 3600 < 3600" by simp_all
  have "0 \<le> Hour t" "Hour t < 24" unfolding Hour_def cycle_consts
    using h div_bounds [of 3600 "abs_of t mod 86400"] by linarith+
  moreover have "0 \<le> Minute t" "Minute t < 60" unfolding Minute_def
    using m div_bounds [of 60 "abs_of t mod 3600"] by linarith+
  moreover have "0 \<le> Second t" "Second t < 60" by (simp_all add: Second_def)
  ultimately show ?thesis by simp
qed

text \<open>The calendar fields of an instant, put back together, are its days since year 1.\<close>

lemma civil_days:
  "1 \<le> Month t \<and> Month t \<le> 12
   \<and> daysSinceEpoch (Year t) + daysBefore (Month t - 1)
       + (if isLeap (Year t) \<and> 3 \<le> Month t then 1 else 0) + (Day t - 1)
     = abs_of t div secondsPerDay"
proof -
  obtain year yday where ay: "absYear (abs_of t) = (year, yday)" by (cases "absYear (abs_of t)")
  obtain m d where md: "monthDay year yday = (m, d)" by (cases "monthDay year yday")
  from absYear_spec [OF ay]
  have a: "daysSinceEpoch year + yday = abs_of t div secondsPerDay" "0 \<le> yday"
    "yday < 365 \<or> (isLeap year \<and> yday = 365)" by auto
  from monthDay_spec [OF a(2,3) md] a(1) show ?thesis
    by (simp add: Year_def Month_def Day_def ay md)
qed

lemma kind_simps:
  "kind Never = 0" "kind Minutely = 1" "kind Hourly = 2" "kind Daily = 3"
  by (simp_all add: Never_def Minutely_def Hourly_def Daily_def newRotation_def)

lemma abs_of_fixed: "tx (loc t) = [] \<Longrightarrow> abs_of t = sec t + zone0 (loc t) + unixToInternal"
  by (simp add: abs_of_def lookup_fixed)

lemma floor_minute_fixed:
  assumes "tx (loc t) = []"
  shows "time_Date (Year t) (Month t) (Day t) (Hour t) (Minute t) 0 0 (loc t)
         = \<lparr>sec = sec t - abs_of t mod 60, nsec = 0, loc = loc t\<rparr>"
proof -
  note cd = civil_days [of t] and cr = clock_ranges [of t]
  have e: "abs_of t div 86400 * 86400 = abs_of t - abs_of t mod 86400"
    using div_mult_mod_eq [of "abs_of t" 86400] by linarith
  have "time_Date (Year t) (Month t) (Day t) (Hour t) (Minute t) 0 0 (loc t)
        = \<lparr>sec = abs_of t div secondsPerDay * secondsPerDay + (Hour t * 3600 + Minute t * 60 + 0)
                  - unixToInternal - zone0 (loc t), nsec = 0, loc = loc t\<rparr>"
    using cd cr assms by (subst time_Date_fixed) simp_all
  also have "abs_of t div secondsPerDay * secondsPerDay + (Hour t * 3600 + Minute t * 60 + 0)
             - unixToInternal - zone0 (loc t) = sec t - abs_of t mod 60"
    unfolding Hour_def Minute_def cycle_consts clock_parts e
    by (simp add: abs_of_fixed [OF assms])
  finally show ?thesis .
qed

lemma floor_hour_fixed:
  assumes "tx (loc t) = []"
  shows "time_Date (Year t) (Month t) (Day t) (Hour t) 0 0 0 (loc t)
         = \<lparr>sec = sec t - abs_of t mod 3600, nsec = 0, loc = loc t\<rparr>"
proof -
  note cd = civil_days [of t] and cr = clock_ranges [of t]
  have e: "abs_of t div 86400 * 86400 = abs_of t - abs_of t mod 86400"
    using div_mult_mod_eq [of "abs_of t" 86400] by linarith
  have "time_Date (Year t) (Month t) (Day t) (Hour t) 0 0 0 (loc t)
        = \<lparr>sec = abs_of t div secondsPerDay * secondsPerDay + (Hour t * 3600 + 0 * 60 + 0)
                  - unixToInternal - zone0 (loc t), nsec = 0, loc = loc t\<rparr>"
    using cd cr assms by (subst time_Date_fixed) simp_all
  also have "abs_of t div secondsPerDay * secondsPerDay + (Hour t * 3600 + 0 * 60 + 0)
             - unixToInternal - zone0 (loc t) = sec t - abs_of t mod 3600"
    unfolding Hour_def cycle_consts clock_parts e
    by (simp add: abs_of_fixed [OF assms])
  finally show ?thesis .
qed

lemma AddDate_day_fixed:
  assumes "tx (loc t) = []" "0 \<le> nsec t" "nsec t < 1000000000"
  shows "AddDate t 0 0 1 = t\<lparr>sec := sec t + 86400\<rparr>"
proof -
  note cd = civil_days [of t] and cr = clock_ranges [of t]
  have e: "abs_of t div 86400 * 86400 = abs_of t - abs_of t mod 86400"
    using div_mult_mod_eq [of "abs_of t" 86400] by linarith
  have "AddDate t 0 0 1
        = \<lparr>sec = (abs_of t div secondsPerDay + 1) * secondsPerDay
                  + (Hour t * 3600 + Minute t * 60 + Second t)
                  - unixToInternal - zone0 (loc t), nsec = nsec t, loc = loc t\<rparr>"
    unfolding AddDate_def using cd cr assms by (subst time_Date_fixed) simp_all
  also have "(abs_of t div secondsPerDay + 1) * secondsPerDay
                  + (Hour t * 3600 + Minute t * 60 + Second t)
                  - unixToInternal - zone0 (loc t) = sec t + 86400"
    unfolding Hour_def Minute_def Second_def cycle_consts clock_parts distrib_right e
    by (simp add: abs_of_fixed [OF assms(1)])
  finally show ?thesis by simp
qed

lemma Add_Minute: "0 \<le> nsec t \<Longrightarrow> nsec t < 1000000000 \<Longrightarrow> Add t Minute_d = t\<lparr>sec := sec t + 60\<rparr>"
  by (simp add: Add_def Minute_d_def signed_divide_int_def signed_modulo_int_def)

lemma Add_Hour: "0 \<le> nsec t \<Longrightarrow> nsec t < 1000000000 \<Longrightarrow> Add t Hour_d = t\<lparr>sec := sec t + 3600\<rparr>"
  by (simp add: Add_def Hour_d_def Minute_d_def signed_divide_int_def signed_modulo_int_def)

lemma NextDate_fixed:
  assumes "tx (loc t) = []" "0 \<le> nsec t" "nsec t < 1000000000"
  shows "NextDate Minutely t = Inr (Some \<lparr>sec = sec t + 60 - abs_of t mod 60, nsec = 0, loc = loc t\<rparr>)"
    and "NextDate Hourly t = Inr (Some \<lparr>sec = sec t + 3600 - abs_of t mod 3600, nsec = 0, loc = loc t\<rparr>)"
    and "NextDate Daily t = Inr (Some \<lparr>sec = sec t + 86400 - abs_of t mod 3600, nsec = 0, loc = loc t\<rparr>)"
proof -
  let ?m = "t\<lparr>sec := sec t + 60\<rparr>" and ?h = "t\<lparr>sec := sec t + 3600\<rparr>"
  let ?d = "t\<lparr>sec := sec t + 86400\<rparr>"
  have fm: "tx (loc ?m) = []" and fh: "tx (loc ?h) = []" and fd: "tx (loc ?d) = []"
    using assms(1) by simp_all
  have am: "abs_of ?m mod 60 = abs_of t mod 60"
    using mod_add_self2 [of "abs_of t" 60] by (simp add: abs_of_fixed assms(1) algebra_simps)
  have eh: "abs_of ?h = abs_of t + 1 * 3600" by (simp add: abs_of_fixed assms(1))
  have ah: "abs_of ?h mod 3600 = abs_of t mod 3600"
    unfolding eh by (rule mod_mult_self1)
  have ed: "abs_of ?d = abs_of t + 24 * 3600" by (simp add: abs_of_fixed assms(1))
  have ad: "abs_of ?d mod 3600 = abs_of t mod 3600"
    unfolding ed by (rule mod_mult_self1)
  show "NextDate Minutely t = Inr (Some \<lparr>sec = sec t + 60 - abs_of t mod 60, nsec = 0, loc = loc t\<rparr>)"
    unfolding NextDate_def roundDate_def kind_simps Add_Minute [OF assms(2,3)]
    using floor_minute_fixed [OF fm] by (simp add: am)
  show "NextDate Hourly t = Inr (Some \<lparr>sec = sec t + 3600 - abs_of t mod 3600, nsec = 0, loc = loc t\<rparr>)"
    unfolding NextDate_def roundDate_def kind_simps Add_Hour [OF assms(2,3)]
    using floor_hour_fixed [OF fh] by (simp add: ah)
  show "NextDate Daily t = Inr (Some \<lparr>sec = sec t + 86400 - abs_of t mod 3600, nsec = 0, loc = loc t\<rparr>)"
    unfolding NextDate_def roundDate_def kind_simps AddDate_day_fixed [OF assms]
    using floor_hour_fixed [OF fd] by (simp add: ad)
qed

lemma floor_fields:
  fixes a :: int
  shows "(a - a mod 60) mod 60 = 0"
    and "(a - a mod 3600) mod 60 = 0"
    and "((a - a mod 3600) mod 3600) div 60 = 0"
    and "(a - a mod 3600) div 86400 = a div 86400"
    and "((a - a mod 3600) mod 86400) div 3600 = (a mod 86400) div 3600"
proof -
  show "(a - a mod 60) mod 60 = 0" by (simp add: mod_diff_right_eq)
  have h: "(a - a mod 3600) mod 3600 = 0" by (simp add: mod_diff_right_eq)
  then show "((a - a mod 3600) mod 3600) div 60 = 0" by simp
  have "3600 dvd a - a mod 3600" by (rule dvd_minus_mod)
  then have "60 dvd a - a mod 3600" using dvd_trans [of 60 3600 "a - a mod 3600"] by simp
  then show "(a - a mod 3600) mod 60 = 0" by (rule dvd_imp_mod_0)
  define q where "q = a div 86400"
  define r where "r = a mod 86400"
  have a: "a = 86400 * q + r" by (simp add: q_def r_def)
  have r: "0 \<le> r" "r < 86400" by (simp_all add: r_def)
  have "a mod 3600 = r mod 3600" unfolding r_def by (simp add: mod_mod_cancel)
  moreover have "0 \<le> r mod 3600" "r mod 3600 \<le> r" using r by (simp_all add: zmod_le_nonneg_dividend)
  ultimately have e: "a - a mod 3600 = 86400 * q + (r - r mod 3600)"
    and b: "0 \<le> r - r mod 3600" "r - r mod 3600 < 86400"
    using a r by linarith+
  show "(a - a mod 3600) div 86400 = a div 86400"
    unfolding e using div_eq_of_bounds [OF b] by (simp add: q_def)
  have "(a - a mod 3600) mod 86400 = r - r mod 3600"
    unfolding e using mod_eq_of_bounds [OF b] by simp
  moreover have "(r - r mod 3600) div 3600 = r div 3600"
    using div_mult_mod_eq [of r 3600] by (simp add: minus_mod_eq_mult_div)
  ultimately show "((a - a mod 3600) mod 86400) div 3600 = (a mod 86400) div 3600"
    by (simp add: r_def)
qed

lemma absYear_cong: "a div 86400 = a' div 86400 \<Longrightarrow> absYear a = absYear a'"
  unfolding absYear_def cycle_consts by (simp only:)

lemma unixToInternal_mod: "(x + unixToInternal) mod 3600 = x mod 3600"
proof -
  have u: "unixToInternal = 17259888 * 3600" by (simp add: unixToInternal_def cycle_consts)
  show ?thesis unfolding u by (rule mod_mult_self1)
qed

section \<open>The next rotation boundary\<close>




text \<open>
  Claim C3. \<open>NextDate Daily t\<close> is \<open>t\<close> plus one calendar day with minutes, seconds and
  nanoseconds zeroed and the hour of the day kept. In a location without zone
  transitions one calendar day is 86400 seconds, the result is that instant rounded
  down to the hour of local time, and it has the date and hour of \<open>AddDate t 0 0 1\<close>,
  which is the hour of \<open>t\<close>.
\<close>

theorem NextDate_Daily_fixed_zone:
  assumes "tx (loc t) = []" and "0 \<le> nsec t" and "nsec t < 1000000000"
  shows "\<exists>b. NextDate Daily t = Inr (Some b)
             \<and> AddDate t 0 0 1 = t\<lparr>sec := sec t + 86400\<rparr>
             \<and> sec b = sec t + 86400 - (sec t + zone0 (loc t)) mod 3600
             \<and> Year b = Year (AddDate t 0 0 1) \<and> Month b = Month (AddDate t 0 0 1)
             \<and> Day b = Day (AddDate t 0 0 1) \<and> Hour b = Hour (AddDate t 0 0 1)
             \<and> Hour b = Hour t \<and> Minute b = 0 \<and> Second b = 0 \<and> Nanosecond b = 0"
proof -
  let ?t' = "t\<lparr>sec := sec t + 86400\<rparr>"
  let ?b = "\<lparr>sec = sec t + 86400 - abs_of t mod 3600, nsec = 0, loc = loc t\<rparr>"
  have ad: "AddDate t 0 0 1 = ?t'" by (rule AddDate_day_fixed [OF assms])
  have a': "abs_of ?t' = abs_of t + 24 * 3600" by (simp add: abs_of_fixed assms(1))
  have m: "(abs_of t + 24 * 3600) mod 3600 = abs_of t mod 3600" by (rule mod_mult_self1)
  have e: "abs_of ?b = abs_of ?t' - abs_of ?t' mod 3600"
    unfolding a' m by (simp add: abs_of_fixed assms(1))
  have c: "absYear (abs_of ?b) = absYear (abs_of ?t')"
    unfolding e by (rule absYear_cong) (rule floor_fields)
  have h: "Hour ?b = Hour ?t'"
    unfolding Hour_def e cycle_consts by (rule floor_fields)
  have a'': "abs_of ?t' = abs_of t + 1 * 86400" by (simp add: abs_of_fixed assms(1))
  have h': "Hour ?t' = Hour t"
    unfolding Hour_def cycle_consts a'' mod_mult_self1 ..
  have z: "Second ?b = 0" "Minute ?b = 0"
    unfolding Second_def Minute_def e by (rule floor_fields)+
  have s: "abs_of t mod 3600 = (sec t + zone0 (loc t)) mod 3600"
    unfolding abs_of_fixed [OF assms(1)] by (rule unixToInternal_mod)
  show ?thesis
    using NextDate_fixed(3) [OF assms] ad c h h' z s
    by (simp add: Year_def Month_def Day_def Nanosecond_def)
qed

text \<open>
  From 2023-11-05 05:30:15 UTC the daily boundary is 2023-11-06 05:00:00 UTC: hour 5,
  not midnight.
\<close>

theorem NextDate_Daily_fixed_zone_witness:
  "tx (loc \<lparr>sec = 1699162215, nsec = 5, loc = UTC\<rparr>) = []
   \<and> NextDate Daily \<lparr>sec = 1699162215, nsec = 5, loc = UTC\<rparr>
       = Inr (Some \<lparr>sec = 1699246800, nsec = 0, loc = UTC\<rparr>)
   \<and> Hour \<lparr>sec = 1699246800, nsec = 0, loc = UTC\<rparr> = 5
   \<and> (\<exists>b. NextDate Daily \<lparr>sec = 1699162215, nsec = 5, loc = UTC\<rparr> = Inr (Some b)
          \<and> Hour b = Hour \<lparr>sec = 1699162215, nsec = 5, loc = UTC\<rparr> \<and> Minute b = 0)"
proof -
  have f: "tx (loc \<lparr>sec = 1699162215, nsec = 5, loc = UTC\<rparr>) = []" by (simp add: UTC_def)
  have v: "NextDate Daily \<lparr>sec = 1699162215, nsec = 5, loc = UTC\<rparr>
       = Inr (Some \<lparr>sec = 1699246800, nsec = 0, loc = UTC\<rparr>)" by code_simp
  have h: "Hour \<lparr>sec = 1699246800, nsec = 0, loc = UTC\<rparr> = 5" by code_simp
  from NextDate_Daily_fixed_zone [OF f] f v h show ?thesis by simp
qed

text \<open>
  On Lord Howe Island at 02:45 on 30 September 2023 one calendar day later is 02:45 on
  1 October, just after the clocks went from 02:00 to 02:30. Its hour, 02:00, does not
  exist on that day, and \<^verbatim>\<open>time.Date\<close> answers with the instant of the transition,
  02:30 local time: the minutes are not zero.
\<close>

theorem NextDate_Daily_zone_transition_counterexample:
  "NextDate Daily \<lparr>sec = 1696004100, nsec = 0, loc = Lord_Howe_2023\<rparr>
     = Inr (Some \<lparr>sec = 1696087800, nsec = 0, loc = Lord_Howe_2023\<rparr>)
   \<and> Minute \<lparr>sec = 1696087800, nsec = 0, loc = Lord_Howe_2023\<rparr> = 30"
  by code_simp

lemma rotation_kinds:
  "(r = Never) = (kind r = 0)" "(r = Minutely) = (kind r = 1)"
  "(r = Hourly) = (kind r = 2)" "(r = Daily) = (kind r = 3)"
  by (cases r; auto simp: Never_def Minutely_def Hourly_def Daily_def newRotation_def)+

lemma roundDate_Inr:
  "kind r = 1 \<or> kind r = 2 \<or> kind r = 3 \<Longrightarrow> \<exists>b. roundDate r d = Inr b"
  by (auto simp: roundDate_def)

lemma NextDate_cases:
  "(kind r = 1 \<or> kind r = 2 \<or> kind r = 3) \<and> (\<exists>b. NextDate r t = Inr (Some b))
   \<or> \<not> (kind r = 1 \<or> kind r = 2 \<or> kind r = 3) \<and> NextDate r t = Inr None"
proof (cases "kind r = 1 \<or> kind r = 2 \<or> kind r = 3")
  case True
  from roundDate_Inr [OF True] have "\<And>d. \<exists>b. roundDate r d = Inr b" by blast
  then obtain f where f: "\<And>d. roundDate r d = Inr (f d)" by metis
  with True show ?thesis by (auto simp: NextDate_def)
next
  case False
  then show ?thesis by (simp add: NextDate_def)
qed

lemma NextDate_Some_kind:
  "NextDate r t = Inr (Some b) \<Longrightarrow> kind r = 1 \<or> kind r = 2 \<or> kind r = 3"
  using NextDate_cases [of r t] by auto

lemma NextDate_rotating:
  "kind r = 1 \<or> kind r = 2 \<or> kind r = 3 \<Longrightarrow> \<exists>b. NextDate r t = Inr (Some b)"
  using NextDate_cases [of r t] by auto

lemma refreshFile_state: "state (fst (refreshFile srt r w now)) = state r"
  by (auto simp: refreshFile_def Let_def split: prod.splits sum.splits option.splits)

lemma AdvanceDate_Ok:
  assumes "AdvanceDate s now cur = Ok (sw, s')"
  shows "\<exists>nd. NextDate (rotation s) now = Inr (Some nd) \<and> sw = (nextDate s = Unix cur)
              \<and> s' = (if sw then s\<lparr>nextDate := Unix nd\<rparr> else s)"
  using assms
  by (auto simp: AdvanceDate_def CompareAndSwapInt64_def split: sum.splits option.splits if_splits)

lemma AdvanceDate_not_Err: "AdvanceDate s now cur \<noteq> Err e"
  by (auto simp: AdvanceDate_def CompareAndSwapInt64_def split: sum.splits option.splits if_splits)

lemma Write_state:
  assumes "Write srt r w clock p = Ok (res, r', w')"
  shows "state r' = state r
         \<or> (\<exists>current nd. shouldRollover (state r) (getNow (state r) clock) = Some current
               \<and> NextDate (rotation (state r)) (getNow (state r) clock) = Inr (Some nd)
               \<and> state r' = (state r)\<lparr>nextDate := Unix nd\<rparr>)"
proof (cases "shouldRollover (state r) (getNow (state r) clock)")
  case None
  with assms show ?thesis
    by (auto simp: Write_def Let_def split: option.splits prod.splits)
next
  case (Some current)
  show ?thesis
  proof (cases "AdvanceDate (state r) (getNow (state r) clock) current")
    case (Ok x)
    obtain sw s' where x: "x = (sw, s')" by (cases x)
    from AdvanceDate_Ok [OF Ok [unfolded x]] obtain nd where
      nd: "NextDate (rotation (state r)) (getNow (state r) clock) = Inr (Some nd)"
      and s': "s' = (if sw then (state r)\<lparr>nextDate := Unix nd\<rparr> else state r)" by blast
    have "state r' = s'"
    proof (cases sw)
      case True
      obtain r1 w1 where rf: "refreshFile srt (r\<lparr>state := s'\<rparr>) w (getNow (state r) clock) = (r1, w1)"
        by (cases "refreshFile srt (r\<lparr>state := s'\<rparr>) w (getNow (state r) clock)")
      have "state r1 = s'" using refreshFile_state [of srt "r\<lparr>state := s'\<rparr>" w "getNow (state r) clock"] rf by simp
      with assms Some Ok x True rf show ?thesis
        by (auto simp: Write_def Let_def split: option.splits prod.splits)
    next
      case False
      with assms Some Ok x show ?thesis
        by (auto simp: Write_def Let_def split: option.splits prod.splits)
    qed
    with s' nd Some show ?thesis by auto
  next
    case (Err e)
    with assms Some show ?thesis by (simp add: Write_def Let_def)
  next
    case (Panic x)
    with assms Some show ?thesis by (simp add: Write_def Let_def)
  qed
qed

lemma newState_Ok:
  assumes "newState config w clock = Ok s"
  shows "rotation s = Rotation config
         \<and> timeLocation s = (case TimeLocation config of None \<Rightarrow> UTC | Some l \<Rightarrow> l)
         \<and> (NextDate (rotation s) (getNow s clock) = Inr None \<and> nextDate s = 0
            \<or> (\<exists>nd. NextDate (rotation s) (getNow s clock) = Inr (Some nd) \<and> nextDate s = Unix nd))"
  using assms
  by (auto simp: newState_def Let_def getNow_def split: if_splits sum.splits option.splits result.splits)

lemma New_Ok: "New config w clock = Ok (r, w') \<Longrightarrow> newState config w clock = Ok (state r)"
  by (auto simp: New_def split: result.splits prod.splits sum.splits)

lemma reachable_rotating:
  assumes "reachable C r"
  shows "nextDate (state r) \<noteq> 0 \<longrightarrow> rotating (rotation (state r))"
  using assms
proof (induction rule: reachable.induct)
  case (reachable_New config w clock r w')
  from newState_Ok [OF New_Ok [OF reachable_New(1)]] show ?case
    by (auto simp: rotating_def dest: NextDate_Some_kind)
next
  case (reachable_Write r srt w clock p res r' w')
  from Write_state [OF reachable_Write(2)] reachable_Write(4) show ?case
    by (auto simp: rotating_def dest: NextDate_Some_kind)
qed

lemma NextDate_positive:
  assumes "tx (loc t) = []" "0 \<le> sec t" "0 \<le> nsec t" "nsec t < 1000000000"
    and "NextDate r t = Inr (Some b)"
  shows "0 < Unix b"
proof -
  have m60: "abs_of t mod 60 < 60" and m3600: "abs_of t mod 3600 < 3600" by simp_all
  from NextDate_Some_kind [OF assms(5)] have "r = Minutely \<or> r = Hourly \<or> r = Daily"
    by (simp add: rotation_kinds)
  with NextDate_fixed [OF assms(1,3,4)] assms(2,5) m60 m3600 show ?thesis
    by (auto simp: Unix_def)
qed

lemma reachable_positive:
  assumes "reachable C r" and c: "\<And>c. C c \<Longrightarrow> 0 \<le> sec c \<and> 0 \<le> nsec c \<and> nsec c < 1000000000"
  shows "tx (timeLocation (state r)) = [] \<longrightarrow> rotating (rotation (state r)) \<longrightarrow> 0 < nextDate (state r)"
  using assms(1)
proof (induction rule: reachable.induct)
  case (reachable_New config w clock r w')
  note ns = newState_Ok [OF New_Ok [OF reachable_New(1)]]
  show ?case
  proof (intro impI)
    assume f: "tx (timeLocation (state r)) = []" and rt: "rotating (rotation (state r))"
    from NextDate_rotating [OF rt [unfolded rotating_def], of "getNow (state r) clock"] ns obtain nd where
      nd: "NextDate (rotation (state r)) (getNow (state r) clock) = Inr (Some nd)"
        "nextDate (state r) = Unix nd" by auto
    from c [OF reachable_New(2)] f
    show "0 < nextDate (state r)"
      unfolding nd(2) by (intro NextDate_positive [OF _ _ _ _ nd(1)]) (simp_all add: getNow_def In_def)
  qed
next
  case (reachable_Write r srt w clock p res r' w')
  from Write_state [OF reachable_Write(2)] show ?case
  proof
    assume "state r' = state r"
    with reachable_Write(4) show ?thesis by simp
  next
    assume "\<exists>current nd. shouldRollover (state r) (getNow (state r) clock) = Some current
               \<and> NextDate (rotation (state r)) (getNow (state r) clock) = Inr (Some nd)
               \<and> state r' = (state r)\<lparr>nextDate := Unix nd\<rparr>"
    then obtain nd where nd: "NextDate (rotation (state r)) (getNow (state r) clock) = Inr (Some nd)"
      and s': "state r' = (state r)\<lparr>nextDate := Unix nd\<rparr>" by blast
    show ?thesis
    proof (intro impI)
      assume f: "tx (timeLocation (state r')) = []"
      from c [OF reachable_Write(3)] f s'
      show "0 < nextDate (state r')"
        unfolding s' by (simp, intro NextDate_positive [OF _ _ _ _ nd]) (simp_all add: getNow_def In_def)
    qed
  qed
qed

lemma New_minutely:
  "New minutely_config old_log_dir (utc_time 1699162215)
   = Ok (\<lparr>state = minutely_state 1699162260,
           file = Some \<lparr>fd = 3, fname = ''app_20231105_05:30:15.log''\<rparr>\<rparr>,
         opened old_log_dir ''app_20231105_05:30:15.log'')"
  by code_simp

lemma New_before_epoch:
  "New minutely_config old_log_dir (utc_time (- 30))
   = Ok (\<lparr>state = minutely_state 0,
           file = Some \<lparr>fd = 3, fname = ''app_19691231_23:59:30.log''\<rparr>\<rparr>,
         opened old_log_dir ''app_19691231_23:59:30.log'')"
  by code_simp

lemma New_never:
  "New never_config old_log_dir (utc_time 1699162215)
   = Ok (\<lparr>state = never_state, file = Some \<lparr>fd = 3, fname = ''20231105_05:30:15''\<rparr>\<rparr>,
         opened old_log_dir ''20231105_05:30:15'')"
  by code_simp

lemma AdvanceDate_Some:
  "NextDate (rotation s) now = Inr (Some nd) \<Longrightarrow>
   AdvanceDate s now current =
     Ok (nextDate s = Unix current, if nextDate s = Unix current then s\<lparr>nextDate := Unix nd\<rparr> else s)"
  by (simp add: AdvanceDate_def CompareAndSwapInt64_def)

lemma Write_no_Panic:
  assumes "reachable C r"
  shows "Write srt r w clock p \<noteq> Panic x"
proof (cases "shouldRollover (state r) (getNow (state r) clock)")
  case None
  then show ?thesis by (auto simp: Write_def Let_def split: option.splits prod.splits)
next
  case (Some current)
  then have "nextDate (state r) \<noteq> 0" by (auto simp: shouldRollover_def split: if_splits)
  with reachable_rotating [OF assms] have "rotating (rotation (state r))" by simp
  from NextDate_rotating [OF this [unfolded rotating_def], of "getNow (state r) clock"]
  obtain nd where "NextDate (rotation (state r)) (getNow (state r) clock) = Inr (Some nd)" by blast
  from AdvanceDate_Some [OF this] Some show ?thesis
    by (auto simp: Write_def Let_def split: option.splits prod.splits)
qed



text \<open>
  Claim C5. \<open>AdvanceDate\<close> (called for a rotating kind, as it always is) replaces the
  stored boundary by the Unix time of \<open>NextDate\<close> of \<open>now\<close> exactly when the stored value
  equals that of \<open>current\<close> at the compare-and-swap, returns whether it did so, and
  leaves the state as it was when it returns false.
\<close>

theorem AdvanceDate_compare_and_swap:
  assumes "rotation s = Minutely \<or> rotation s = Hourly \<or> rotation s = Daily"
  shows "\<exists>nd. NextDate (rotation s) now = Inr (Some nd)
              \<and> AdvanceDate s now current =
                  Ok (nextDate s = Unix current,
                      if nextDate s = Unix current then s\<lparr>nextDate := Unix nd\<rparr> else s)"
proof -
  from assms have "kind (rotation s) = 1 \<or> kind (rotation s) = 2 \<or> kind (rotation s) = 3"
    by (simp add: rotation_kinds)
  from NextDate_rotating [OF this] obtain nd where "NextDate (rotation s) now = Inr (Some nd)"
    by blast
  with AdvanceDate_Some [OF this] show ?thesis by blast
qed

theorem AdvanceDate_compare_and_swap_witness:
  "rotation (minutely_state 1699162260) = Minutely
   \<and> NextDate Minutely (utc_time 1699162275) = Inr (Some (utc_time 1699162320))
   \<and> AdvanceDate (minutely_state 1699162260) (utc_time 1699162275) (utc_time 1699162260)
       = Ok (True, minutely_state 1699162320)
   \<and> AdvanceDate (minutely_state 1699162320) (utc_time 1699162275) (utc_time 1699162260)
       = Ok (False, minutely_state 1699162320)"
proof -
  have r: "\<And>n. rotation (minutely_state n) = Minutely" by (simp add: minutely_state_def)
  have nd: "NextDate Minutely (utc_time 1699162275) = Inr (Some (utc_time 1699162320))"
    by code_simp
  from AdvanceDate_compare_and_swap [of "minutely_state 1699162260" "utc_time 1699162275" "utc_time 1699162260"]
    AdvanceDate_compare_and_swap [of "minutely_state 1699162320" "utc_time 1699162275" "utc_time 1699162260"]
    r nd
  show ?thesis by (simp add: minutely_state_def utc_time_def Unix_def)
qed

text \<open>
  Claim C6. For \<open>Never\<close>, \<open>joinDate\<close> leaves the formatted date out whenever the prefix
  or the suffix is not empty, and the name is then the same for every instant. When both
  are empty the switch falls through to the last \<^verbatim>\<open>return\<close> and the name is the
  formatted date.
\<close>

theorem joinDate_Never:
  assumes "rotation s = Never"
  shows "joinDate s date =
           (if logFilenamePrefix s = [] \<and> logFilenameSuffix s = [] then Format date (dateFormat s)
            else logFilenamePrefix s @ logFilenameSuffix s)"
  using assms by (auto simp: joinDate_def)

theorem joinDate_Never_witness:
  "rotation (never_state\<lparr>logFilenamePrefix := ''app'', logFilenameSuffix := ''.log''\<rparr>) = Never
   \<and> joinDate (never_state\<lparr>logFilenamePrefix := ''app'', logFilenameSuffix := ''.log''\<rparr>)
        (utc_time 86400) = ''app.log''"
  using joinDate_Never [of "never_state\<lparr>logFilenamePrefix := ''app'', logFilenameSuffix := ''.log''\<rparr>"
      "utc_time 86400"]
  by (simp add: never_state_def)

text \<open>
  With \<open>Never\<close> and neither prefix nor suffix, the state \<open>newState\<close> builds names the file
  after the instant: two instants, two names.
\<close>

theorem joinDate_Never_empty_counterexample:
  "newState never_config old_log_dir (utc_time 1699162215) = Ok never_state
   \<and> joinDate never_state (utc_time 0) = ''19700101_00:00:00''
   \<and> joinDate never_state (utc_time 86400) = ''19700102_00:00:00''"
  by code_simp

lemma reachable_running: "reachable clock_after_epoch running"
  unfolding running_def
  by (rule reachable_New [OF New_minutely]) (simp add: clock_after_epoch_def utc_time_def)

text \<open>
  Claim C10. In every state reachable from \<open>New\<close> by calls of \<open>Write\<close>, the kind \<open>Never\<close>
  has the stored boundary zero; whenever \<open>shouldRollover\<close> returns a value, \<open>NextDate\<close>
  is not nil and \<open>AdvanceDate\<close> returns, so \<open>Write\<close> never panics. Conversely a rotating
  kind has a boundary other than zero when the location has no zone transition and the
  clock never reads an instant before the Unix epoch.
\<close>

theorem reachable_boundary_zero:
  assumes "reachable C r"
  shows "(rotation (state r) = Never \<longrightarrow> nextDate (state r) = 0)
       \<and> (shouldRollover (state r) now = Some current \<longrightarrow>
            (\<exists>nd. NextDate (rotation (state r)) now = Inr (Some nd)
                  \<and> AdvanceDate (state r) now current =
                      Ok (nextDate (state r) = Unix current,
                          if nextDate (state r) = Unix current
                          then (state r)\<lparr>nextDate := Unix nd\<rparr> else state r)))
       \<and> Write srt r w clock p \<noteq> Panic x
       \<and> ((\<forall>c. C c \<longrightarrow> clock_after_epoch c) \<and> tx (timeLocation (state r)) = []
            \<and> (rotation (state r) = Minutely \<or> rotation (state r) = Hourly
                \<or> rotation (state r) = Daily)
          \<longrightarrow> nextDate (state r) \<noteq> 0)"
proof -
  note rr = reachable_rotating [OF assms]
  have a: "rotation (state r) = Never \<longrightarrow> nextDate (state r) = 0"
    using rr by (auto simp: rotating_def rotation_kinds)
  have b: "\<exists>nd. NextDate (rotation (state r)) now = Inr (Some nd)
                  \<and> AdvanceDate (state r) now current =
                      Ok (nextDate (state r) = Unix current,
                          if nextDate (state r) = Unix current
                          then (state r)\<lparr>nextDate := Unix nd\<rparr> else state r)"
    if "shouldRollover (state r) now = Some current"
  proof -
    from that have "nextDate (state r) \<noteq> 0" by (auto simp: shouldRollover_def split: if_splits)
    with rr have "rotating (rotation (state r))" by simp
    from NextDate_rotating [OF this [unfolded rotating_def], of now]
    obtain nd where "NextDate (rotation (state r)) now = Inr (Some nd)" by blast
    with AdvanceDate_Some [OF this] show ?thesis by blast
  qed
  have c: "nextDate (state r) \<noteq> 0"
    if "\<forall>c. C c \<longrightarrow> clock_after_epoch c" "tx (timeLocation (state r)) = []"
      "rotation (state r) = Minutely \<or> rotation (state r) = Hourly \<or> rotation (state r) = Daily"
  proof -
    from that(1) have "\<And>c. C c \<Longrightarrow> 0 \<le> sec c \<and> 0 \<le> nsec c \<and> nsec c < 1000000000"
      by (simp add: clock_after_epoch_def)
    from reachable_positive [OF assms this] that(2,3) show ?thesis
      by (auto simp: rotating_def rotation_kinds)
  qed
  from a b c Write_no_Panic [OF assms] show ?thesis by blast
qed

theorem reachable_boundary_zero_witness:
  "reachable any_clock \<lparr>state = never_state, file = Some \<lparr>fd = 3, fname = ''20231105_05:30:15''\<rparr>\<rparr>
   \<and> rotation never_state = Never \<and> nextDate never_state = 0
   \<and> reachable clock_after_epoch running
   \<and> shouldRollover (state running) (utc_time 1699162275) = Some (utc_time 1699162260)
   \<and> NextDate (rotation (state running)) (utc_time 1699162275) = Inr (Some (utc_time 1699162320))
   \<and> AdvanceDate (state running) (utc_time 1699162275) (utc_time 1699162260)
       = Ok (True, minutely_state 1699162320)
   \<and> tx (timeLocation (state running)) = [] \<and> rotation (state running) = Minutely
   \<and> nextDate (state running) \<noteq> 0"
proof -
  let ?n = "\<lparr>state = never_state, file = Some \<lparr>fd = 3, fname = ''20231105_05:30:15''\<rparr>\<rparr>"
  have re: "reachable any_clock ?n"
    by (rule reachable_New [OF New_never]) (simp add: any_clock_def)
  have sr: "shouldRollover (state running) (utc_time 1699162275) = Some (utc_time 1699162260)"
    by (simp add: running_def shouldRollover_def minutely_state_def utc_time_def Unix_def
        In_def time_Unix_def)
  have nd: "NextDate Minutely (utc_time 1699162275) = Inr (Some (utc_time 1699162320))"
    by code_simp
  have st: "state running = minutely_state 1699162260" by (simp add: running_def)
  from reachable_boundary_zero [OF re, of "utc_time 0" "utc_time 0" sort_Ctime old_log_dir
      "utc_time 0" "[]" Unreachable]
  have n: "rotation never_state = Never \<longrightarrow> nextDate never_state = 0" by simp
  from reachable_boundary_zero [OF reachable_running,
      of "utc_time 1699162275" "utc_time 1699162260" sort_Ctime running_dir "utc_time 1699162275"
        "[]" Unreachable]
    re sr nd n reachable_running
  show ?thesis
    by (simp add: st minutely_state_def never_state_def utc_time_def Unix_def UTC_def)
qed

text \<open>
  A minutely appender constructed when the clock reads 1969-12-31 23:59:30 UTC stores
  the boundary 1970-01-01 00:00:00, which is the Unix time zero.
\<close>

theorem reachable_boundary_zero_counterexample:
  "reachable any_clock \<lparr>state = minutely_state 0,
                         file = Some \<lparr>fd = 3, fname = ''app_19691231_23:59:30.log''\<rparr>\<rparr>
   \<and> nextDate (minutely_state 0) = 0 \<and> rotation (minutely_state 0) = Minutely
   \<and> Minutely \<noteq> Never"
proof -
  have "reachable any_clock \<lparr>state = minutely_state 0,
                         file = Some \<lparr>fd = 3, fname = ''app_19691231_23:59:30.log''\<rparr>\<rparr>"
    by (rule reachable_New [OF New_before_epoch]) (simp add: any_clock_def)
  then show ?thesis by (simp add: minutely_state_def rotation_kinds kind_simps)
qed

end
